theory Spec2Isabelle
  imports Main
begin

section \<open>The BIND statistics XML v2 reader\<close>

text \<open>
  The Go file \<^verbatim>\<open>plugins/inputs/bind/xml_stats_v2.go\<close> declares the decoded document tree (\<open>v2Root\<close>, \<open>v2Statistics\<close>,
  \<open>v2Counter\<close>) and two functions: \<open>addXMLv2Counter\<close>, which hands a list of counters
  to a telegraf accumulator, and \<open>readStatsXMLv2\<close>, which fetches the document, decodes
  it and emits every section.

  Go maps are reference types and the code relies on that (it writes \<open>tags["type"]\<close>
  into one map between calls and copies it inside \<open>addXMLv2Counter\<close>), so tag maps live
  in an explicit store: a reference is an index into the list of allocated maps.
  The accumulator is an interface of the host framework; it is modelled as the log of the
  calls it received, each call keeping the very reference it was given.
\<close>

subsection \<open>Decoded document\<close>

text \<open>\<open>type v2Counter struct { Name string; Value int }\<close>. The values are only decoded
  and passed on, never computed with, so a Go \<open>int\<close> is an \<open>int\<close> here.\<close>

record v2Counter =
  Name :: string
  Value :: int

text \<open>The anonymous element type of \<open>Views[].Caches\<close>.\<close>

record v2Cache =
  cache_Name :: string
  RRSets :: "v2Counter list"

text \<open>The anonymous element type of \<open>v2Statistics.Views\<close>.\<close>

record v2View =
  view_Name :: string
  view_RdTypes :: "v2Counter list"
  view_ResStats :: "v2Counter list"
  Caches :: "v2Cache list"

record v2Server =
  OpCodes :: "v2Counter list"
  RdTypes :: "v2Counter list"
  NSStats :: "v2Counter list"
  ZoneStats :: "v2Counter list"
  ResStats :: "v2Counter list"
  SockStats :: "v2Counter list"

text \<open>The anonymous element type of \<open>Memory.Contexts\<close>.\<close>

record v2Context =
  ctx_Id :: string
  ctx_Name :: string
  Total :: int
  ctx_InUse :: int

record v2Summary =
  TotalUse :: int
  InUse :: int
  BlockSize :: int
  ContextSize :: int
  Lost :: int

record v2Memory =
  Contexts :: "v2Context list"
  Summary :: v2Summary

record v2Statistics =
  stat_Version :: string
  Views :: "v2View list"
  Server :: v2Server
  Memory :: v2Memory

text \<open>\<open>xml.Name\<close> is a pair of strings (namespace, local name).\<close>

record v2Root =
  XMLName :: "string \<times> string"
  Version :: string
  Statistics :: v2Statistics

subsection \<open>Collaborators: URL, HTTP response, plugin configuration, errors\<close>

text \<open>Of \<open>*url.URL\<close> the code reads the field \<open>Host\<close> and the rendering \<open>String()\<close>.\<close>

record url =
  url_String :: string
  Host :: string

text \<open>Of \<open>*http.Response\<close> the code reads \<open>StatusCode\<close>, \<open>Status\<close>, \<open>ContentLength\<close>
  and \<open>Body\<close>.\<close>

record response =
  StatusCode :: int
  Status :: string
  ContentLength :: int
  Body :: string

definition StatusOK :: int where
  "StatusOK = 200"

text \<open>The receiver \<open>b *Bind\<close>. The type is declared in another file of the package;
  the function reads two boolean fields of it, and the record carries those.\<close>

record Bind =
  GatherMemoryContexts :: bool
  GatherViews :: bool

text \<open>The three error returns of \<open>readStatsXMLv2\<close>:
  \<^item> \<open>return err\<close> after \<open>client.Get\<close>;
  \<^item> \<open>fmt.Errorf("%s returned HTTP status: %s", addr, resp.Status)\<close>;
  \<^item> \<open>fmt.Errorf("Unable to decode XML document: %s", err)\<close>.\<close>

datatype error =
    GetError string
  | StatusError string string
  | DecodeError string

fun error_message :: "error \<Rightarrow> string" where
  "error_message (GetError err) = err"
| "error_message (StatusError addr status) = addr @ '' returned HTTP status: '' @ status"
| "error_message (DecodeError err) = ''Unable to decode XML document: '' @ err"

subsection \<open>Store of tag maps and the accumulator\<close>

type_synonym tagmap = "string \<rightharpoonup> string"
type_synonym ref = nat

datatype kind = Counter | Gauge

text \<open>One call received by the accumulator. \<open>tags\<close> is the reference that was passed.\<close>

record observation =
  measurement :: string
  kind :: kind
  obs_fields :: "string \<rightharpoonup> int"
  tags :: ref

record state =
  heap :: "tagmap list"
  acc :: "observation list"

text \<open>\<open>make(map[string]string)\<close> or a map literal: a new cell at the end of the store.\<close>

definition new_map :: "state \<Rightarrow> tagmap \<Rightarrow> ref \<times> state" where
  "new_map s m = (length (heap s), s\<lparr>heap := heap s @ [m]\<rparr>)"

text \<open>\<open>m[k] = v\<close> through a reference.\<close>

definition map_set :: "state \<Rightarrow> ref \<Rightarrow> string \<Rightarrow> string \<Rightarrow> state" where
  "map_set s r k v = s\<lparr>heap := (heap s)[r := (heap s ! r)(k \<mapsto> v)]\<rparr>"

text \<open>\<open>for k, v := range src { dst[k] = v }\<close>: every entry of \<open>src\<close> is written into
  \<open>dst\<close>; the keys of a map are distinct, so the order of the iteration does not show.\<close>

definition copy_entries :: "state \<Rightarrow> ref \<Rightarrow> ref \<Rightarrow> state" where
  "copy_entries s dst src = s\<lparr>heap := (heap s)[dst := (heap s ! dst) ++ (heap s ! src)]\<rparr>"

definition AddCounter :: "state \<Rightarrow> string \<Rightarrow> (string \<rightharpoonup> int) \<Rightarrow> ref \<Rightarrow> state" where
  "AddCounter s m f t =
     s\<lparr>acc := acc s @ [\<lparr>measurement = m, kind = Counter, obs_fields = f, tags = t\<rparr>]\<rparr>"

definition AddGauge :: "state \<Rightarrow> string \<Rightarrow> (string \<rightharpoonup> int) \<Rightarrow> ref \<Rightarrow> state" where
  "AddGauge s m f t =
     s\<lparr>acc := acc s @ [\<lparr>measurement = m, kind = Gauge, obs_fields = f, tags = t\<rparr>]\<rparr>"

subsection \<open>addXMLv2Counter\<close>

text \<open>For each counter: a new map, the copy of \<open>commonTags\<close> into it, the \<open>name\<close> tag,
  the one-entry field map, and the call \<open>acc.AddCounter("bind_counter", fields, tags)\<close>.\<close>

fun addXMLv2Counter :: "state \<Rightarrow> ref \<Rightarrow> v2Counter list \<Rightarrow> state" where
  "addXMLv2Counter s commonTags [] = s"
| "addXMLv2Counter s commonTags (c # stats) =
     (let (tags, s) = new_map s Map.empty;
          s = copy_entries s tags commonTags;
          s = map_set s tags ''name'' (Name c);
          fields = [''value'' \<mapsto> Value c];
          s = AddCounter s ''bind_counter'' fields tags
      in addXMLv2Counter s commonTags stats)"

subsection \<open>readStatsXMLv2\<close>

text \<open>The loop over \<open>stats.Statistics.Memory.Contexts\<close> (run when
  \<open>b.GatherMemoryContexts\<close>).\<close>

fun memoryContexts :: "state \<Rightarrow> url \<Rightarrow> v2Context list \<Rightarrow> state" where
  "memoryContexts s addr [] = s"
| "memoryContexts s addr (c # cs) =
     (let (tags, s) = new_map s [''url'' \<mapsto> Host addr, ''id'' \<mapsto> ctx_Id c, ''name'' \<mapsto> ctx_Name c];
          fields = [''Total'' \<mapsto> Total c, ''InUse'' \<mapsto> ctx_InUse c];
          s = AddGauge s ''bind_memory_context'' fields tags
      in memoryContexts s addr cs)"

text \<open>The loop over \<open>stats.Statistics.Views\<close> (run when \<open>b.GatherViews\<close>).\<close>

fun views :: "state \<Rightarrow> url \<Rightarrow> v2View list \<Rightarrow> state" where
  "views s addr [] = s"
| "views s addr (v # vs) =
     (let (tags, s) = new_map s [''url'' \<mapsto> Host addr, ''view'' \<mapsto> view_Name v];
          s = map_set s tags ''type'' ''qtype'';
          s = addXMLv2Counter s tags (view_RdTypes v);
          s = map_set s tags ''type'' ''resstats'';
          s = addXMLv2Counter s tags (view_ResStats v)
      in views s addr vs)"

text \<open>
  \<open>client.Get\<close> and \<open>xml.NewDecoder(...).Decode\<close> belong to Go's standard library; they
  are parameters of the model, each returning its error (\<open>Inl\<close>) or its result.
  The function returns Go's \<open>error\<close> (\<open>None\<close> is \<open>nil\<close>) and the state it leaves.
  \<open>log.Printf\<close> writes to the process log only and \<open>defer resp.Body.Close()\<close> releases
  the connection; neither touches the accumulator or a tag map.
\<close>

definition readStatsXMLv2 ::
  "Bind \<Rightarrow> (string \<Rightarrow> string + response) \<Rightarrow> (string \<Rightarrow> string + v2Root) \<Rightarrow>
   url \<Rightarrow> state \<Rightarrow> error option \<times> state" where
  "readStatsXMLv2 b client_Get xml_Decode addr s =
     (case client_Get (url_String addr) of
        Inl err \<Rightarrow> (Some (GetError err), s)
      | Inr resp \<Rightarrow>
          if StatusCode resp \<noteq> StatusOK
          then (Some (StatusError (url_String addr) (Status resp)), s)
          else
            (case xml_Decode (Body resp) of
               Inl err \<Rightarrow> (Some (DecodeError err), s)
             | Inr stats \<Rightarrow>
                 (let (tags, s) = new_map s [''url'' \<mapsto> Host addr];
                      s = map_set s tags ''type'' ''opcode'';
                      s = addXMLv2Counter s tags (OpCodes (Server (Statistics stats)));
                      s = map_set s tags ''type'' ''qtype'';
                      s = addXMLv2Counter s tags (RdTypes (Server (Statistics stats)));
                      s = map_set s tags ''type'' ''nsstat'';
                      s = addXMLv2Counter s tags (NSStats (Server (Statistics stats)));
                      s = map_set s tags ''type'' ''zonestat'';
                      s = addXMLv2Counter s tags (ZoneStats (Server (Statistics stats)));
                      s = map_set s tags ''type'' ''sockstat'';
                      s = addXMLv2Counter s tags (SockStats (Server (Statistics stats)));
                      fields = [''TotalUse'' \<mapsto> TotalUse (Summary (Memory (Statistics stats))),
                                ''InUse'' \<mapsto> InUse (Summary (Memory (Statistics stats))),
                                ''BlockSize'' \<mapsto> BlockSize (Summary (Memory (Statistics stats))),
                                ''ContextSize'' \<mapsto> ContextSize (Summary (Memory (Statistics stats))),
                                ''Lost'' \<mapsto> Lost (Summary (Memory (Statistics stats)))];
                      (mtags, s) = new_map s [''url'' \<mapsto> Host addr];
                      s = AddGauge s ''bind_memory'' fields mtags;
                      s = (if GatherMemoryContexts b
                           then memoryContexts s addr (Contexts (Memory (Statistics stats)))
                           else s);
                      s = (if GatherViews b
                           then views s addr (Views (Statistics stats))
                           else s)
                  in (None, s))))"

subsection \<open>Reading the accumulator\<close>

text \<open>The calls the accumulator received between two states, and a call with its tag
  reference followed into the store.\<close>

definition emitted :: "state \<Rightarrow> state \<Rightarrow> observation list" where
  "emitted s s' = drop (length (acc s)) (acc s')"

type_synonym resolved = "string \<times> kind \<times> (string \<rightharpoonup> int) \<times> tagmap"

definition resolve :: "state \<Rightarrow> observation \<Rightarrow> resolved" where
  "resolve s ob = (measurement ob, kind ob, obs_fields ob, heap s ! tags ob)"

text \<open>What the accumulator sees for one counter emitted under the common tags \<open>common\<close>,
  for the memory summary, for one memory context, and for the sections in the order of the
  code.\<close>

definition counter_obs :: "tagmap \<Rightarrow> v2Counter \<Rightarrow> resolved" where
  "counter_obs common c =
     (''bind_counter'', Counter, [''value'' \<mapsto> Value c], common(''name'' \<mapsto> Name c))"

definition memory_obs :: "string \<Rightarrow> v2Summary \<Rightarrow> resolved" where
  "memory_obs host sm =
     (''bind_memory'', Gauge,
      [''TotalUse'' \<mapsto> TotalUse sm, ''InUse'' \<mapsto> InUse sm, ''BlockSize'' \<mapsto> BlockSize sm,
       ''ContextSize'' \<mapsto> ContextSize sm, ''Lost'' \<mapsto> Lost sm],
      [''url'' \<mapsto> host])"

definition context_obs :: "string \<Rightarrow> v2Context \<Rightarrow> resolved" where
  "context_obs host c =
     (''bind_memory_context'', Gauge, [''Total'' \<mapsto> Total c, ''InUse'' \<mapsto> ctx_InUse c],
      [''url'' \<mapsto> host, ''id'' \<mapsto> ctx_Id c, ''name'' \<mapsto> ctx_Name c])"

definition server_obs :: "string \<Rightarrow> v2Server \<Rightarrow> resolved list" where
  "server_obs host srv =
     map (counter_obs [''url'' \<mapsto> host, ''type'' \<mapsto> ''opcode'']) (OpCodes srv) @
     map (counter_obs [''url'' \<mapsto> host, ''type'' \<mapsto> ''qtype'']) (RdTypes srv) @
     map (counter_obs [''url'' \<mapsto> host, ''type'' \<mapsto> ''nsstat'']) (NSStats srv) @
     map (counter_obs [''url'' \<mapsto> host, ''type'' \<mapsto> ''zonestat'']) (ZoneStats srv) @
     map (counter_obs [''url'' \<mapsto> host, ''type'' \<mapsto> ''sockstat'']) (SockStats srv)"

definition view_obs :: "string \<Rightarrow> v2View \<Rightarrow> resolved list" where
  "view_obs host v =
     map (counter_obs [''url'' \<mapsto> host, ''view'' \<mapsto> view_Name v, ''type'' \<mapsto> ''qtype''])
       (view_RdTypes v) @
     map (counter_obs [''url'' \<mapsto> host, ''view'' \<mapsto> view_Name v, ''type'' \<mapsto> ''resstats''])
       (view_ResStats v)"

definition cycle_obs :: "Bind \<Rightarrow> string \<Rightarrow> v2Statistics \<Rightarrow> resolved list" where
  "cycle_obs b host st =
     server_obs host (Server st) @
     [memory_obs host (Summary (Memory st))] @
     (if GatherMemoryContexts b then map (context_obs host) (Contexts (Memory st)) else []) @
     (if GatherViews b then concat (map (view_obs host) (Views st)) else [])"

text \<open>
  The effect of a piece of code that takes the state \<open>s\<close> to \<open>s'\<close>: the store only
  grows; of the maps that existed in \<open>s\<close> only those in \<open>B\<close> may have changed; the
  accumulator received the calls \<open>emitted s s'\<close> on top of what it held, they read as
  \<open>rs\<close> in \<open>s'\<close>, and their tag maps are pairwise different maps allocated by this piece
  of code.
\<close>

definition emits :: "ref set \<Rightarrow> state \<Rightarrow> state \<Rightarrow> resolved list \<Rightarrow> bool" where
  "emits B s s' rs \<longleftrightarrow>
     length (heap s) \<le> length (heap s') \<and>
     (\<forall>r<length (heap s). r \<notin> B \<longrightarrow> heap s' ! r = heap s ! r) \<and>
     acc s' = acc s @ emitted s s' \<and>
     map (resolve s') (emitted s s') = rs \<and>
     distinct (map tags (emitted s s')) \<and>
     (\<forall>ob\<in>set (emitted s s'). length (heap s) \<le> tags ob \<and> tags ob < length (heap s'))"

subsection \<open>Documents that differ in a part the reader does not use\<close>

text \<open>The document with both version attributes replaced, and the document with the
  cache sections of every view replaced.\<close>

definition with_version :: "string \<Rightarrow> string \<Rightarrow> v2Root \<Rightarrow> v2Root" where
  "with_version v v' d = d\<lparr>Version := v, Statistics := (Statistics d)\<lparr>stat_Version := v'\<rparr>\<rparr>"

definition with_caches :: "(v2View \<Rightarrow> v2Cache list) \<Rightarrow> v2Root \<Rightarrow> v2Root" where
  "with_caches f d =
     d\<lparr>Statistics := (Statistics d)\<lparr>Views := map (\<lambda>v. v\<lparr>Caches := f v\<rparr>) (Views (Statistics d))\<rparr>\<rparr>"

subsection \<open>Concrete inputs\<close>

text \<open>A target, a transport that answers every request with a given response, a decoder
  that returns a given document, and a caller that already holds one tag map.\<close>

definition example_addr :: url where
  "example_addr = \<lparr>url_String = ''http://example:8053'', Host = ''example:8053''\<rparr>"

definition canned :: "int \<Rightarrow> string \<Rightarrow> response" where
  "canned code status =
     \<lparr>StatusCode = code, Status = status, ContentLength = 9, Body = ''<isc.../>''\<rparr>"

definition answer :: "int \<Rightarrow> string \<Rightarrow> string \<Rightarrow> string + response" where
  "answer code status u = Inr (canned code status)"

definition decodes_to :: "v2Root \<Rightarrow> string \<Rightarrow> string + v2Root" where
  "decodes_to d body = Inr d"

definition document :: "string \<Rightarrow> v2View list \<Rightarrow> v2Counter list \<Rightarrow> v2Counter list \<Rightarrow> v2Root" where
  "document ver vs opcodes resstats =
     \<lparr>XMLName = ([], ''isc''), Version = ver,
      Statistics =
        \<lparr>stat_Version = ''2.2'', Views = vs,
         Server = \<lparr>OpCodes = opcodes, RdTypes = [], NSStats = [], ZoneStats = [],
                   ResStats = resstats, SockStats = []\<rparr>,
         Memory = \<lparr>Contexts = [],
                   Summary = \<lparr>TotalUse = 0, InUse = 0, BlockSize = 0, ContextSize = 0,
                              Lost = 0\<rparr>\<rparr>\<rparr>\<rparr>"

definition query42 :: v2Counter where
  "query42 = \<lparr>Name = ''QUERY'', Value = 42\<rparr>"

definition fixture_doc :: v2Root where
  "fixture_doc = document ''2'' [] [query42] []"

definition resstat_doc :: v2Root where
  "resstat_doc = document ''2'' [] [query42] [\<lparr>Name = ''Queryv4'', Value = 7\<rparr>]"

definition v9_doc :: v2Root where
  "v9_doc = document ''v9'' [] [query42] []"

definition view_doc :: v2Root where
  "view_doc =
     document ''2''
       [\<lparr>view_Name = ''_default'', view_RdTypes = [\<lparr>Name = ''A'', Value = 3\<rparr>],
         view_ResStats = [],
         Caches = [\<lparr>cache_Name = ''_default'', RRSets = [\<lparr>Name = ''NS'', Value = 5\<rparr>]\<rparr>]\<rparr>]
       [query42] []"

definition summary_only :: Bind where
  "summary_only = \<lparr>GatherMemoryContexts = False, GatherViews = False\<rparr>"

definition caller_state :: state where
  "caller_state = \<lparr>heap = [ [''owner'' \<mapsto> ''caller''] ], acc = []\<rparr>"

text \<open>The state the fixture document leaves: the caller's map, the base map of the call,
  the tag map of the one counter and the tag map of the memory summary.\<close>

definition fixture_final :: state where
  "fixture_final =
     \<lparr>heap = [ [''owner'' \<mapsto> ''caller''],
              [''url'' \<mapsto> ''example:8053'', ''type'' \<mapsto> ''sockstat''],
              [''url'' \<mapsto> ''example:8053'', ''type'' \<mapsto> ''opcode'', ''name'' \<mapsto> ''QUERY''],
              [''url'' \<mapsto> ''example:8053''] ],
      acc = [\<lparr>measurement = ''bind_counter'', kind = Counter, obs_fields = [''value'' \<mapsto> 42],
               tags = 2\<rparr>,
             \<lparr>measurement = ''bind_memory'', kind = Gauge,
               obs_fields = [''TotalUse'' \<mapsto> 0, ''InUse'' \<mapsto> 0, ''BlockSize'' \<mapsto> 0,
                             ''ContextSize'' \<mapsto> 0, ''Lost'' \<mapsto> 0],
               tags = 3\<rparr>]\<rparr>"

section \<open>Effect of the emission code\<close>

lemma emits_refl: "emits B s s []"
  by (simp add: emits_def emitted_def)

lemma emitted_append:
  assumes "acc s1 = acc s @ emitted s s1" and "acc s2 = acc s1 @ emitted s1 s2"
  shows "emitted s s2 = emitted s s1 @ emitted s1 s2"
proof -
  have "acc s2 = acc s @ (emitted s s1 @ emitted s1 s2)"
    using assms by simp
  then show ?thesis
    by (simp add: emitted_def[of s s2])
qed

lemma emits_trans:
  assumes 1: "emits B1 s s1 rs1" and 2: "emits B2 s1 s2 rs2"
    and B2: "B2 \<subseteq> {..<length (heap s)}"
  shows "emits (B1 \<union> B2) s s2 (rs1 @ rs2)"
proof -
  have e: "emitted s s2 = emitted s s1 @ emitted s1 s2"
    using 1 2 by (intro emitted_append) (simp_all add: emits_def)
  have old: "resolve s2 ob = resolve s1 ob" if "ob \<in> set (emitted s s1)" for ob
  proof -
    from that 1 have "length (heap s) \<le> tags ob" "tags ob < length (heap s1)"
      by (auto simp: emits_def)
    moreover from this B2 have "tags ob \<notin> B2" by auto
    ultimately have "heap s2 ! tags ob = heap s1 ! tags ob"
      using 2 by (simp add: emits_def)
    then show ?thesis by (simp add: resolve_def)
  qed
  have res: "map (resolve s2) (emitted s s2) = rs1 @ rs2"
    using 1 2 old by (simp add: e emits_def cong: map_cong)
  have dist: "distinct (map tags (emitted s s2))"
    using 1 2 by (fastforce simp: e emits_def)
  have rng: "\<forall>ob\<in>set (emitted s s2). length (heap s) \<le> tags ob \<and> tags ob < length (heap s2)"
    using 1 2 by (fastforce simp: e emits_def)
  have frame: "\<forall>r<length (heap s). r \<notin> B1 \<union> B2 \<longrightarrow> heap s2 ! r = heap s ! r"
    using 1 2 by (auto simp: emits_def)
  have len: "length (heap s) \<le> length (heap s2)"
    using 1 2 by (simp add: emits_def)
  have "acc s2 = acc s @ emitted s s2"
    using 1 2 by (simp add: e emits_def)
  with len frame res dist rng show ?thesis
    by (simp add: emits_def)
qed

lemma emits_new_map:
  assumes "emits B (snd (new_map s m)) s' rs"
  shows "emits (B - {length (heap s)}) s s' rs"
  using assms by (auto simp: emits_def new_map_def emitted_def nth_append)

lemma emits_map_set: "emits {r} s (map_set s r k v) []"
  by (simp add: emits_def emitted_def map_set_def)

lemma emits_frame: "emits B s s' rs \<Longrightarrow> r < length (heap s) \<Longrightarrow> r \<notin> B \<Longrightarrow> heap s' ! r = heap s ! r"
  by (simp add: emits_def)

lemma emits_length: "emits B s s' rs \<Longrightarrow> r < length (heap s) \<Longrightarrow> r < length (heap s')"
  by (simp add: emits_def)

lemma counter_iteration:
  assumes "ct < length (heap s)"
  shows "emits {} s (let (tags, s) = new_map s Map.empty;
          s = copy_entries s tags ct;
          s = map_set s tags ''name'' (Name c);
          fields = [''value'' \<mapsto> Value c]
      in AddCounter s ''bind_counter'' fields tags)
    [counter_obs (heap s ! ct) c]"
  using assms
  by (simp add: emits_def emitted_def new_map_def copy_entries_def map_set_def AddCounter_def
      resolve_def nth_append counter_obs_def)

lemma addXMLv2Counter_emits:
  "ct < length (heap s) \<Longrightarrow>
   emits {} s (addXMLv2Counter s ct stats) (map (counter_obs (heap s ! ct)) stats)"
proof (induction stats arbitrary: s)
  case Nil
  show ?case by (simp add: emits_refl)
next
  case (Cons c stats)
  define s4 where "s4 = (let (tags, s) = new_map s Map.empty;
          s = copy_entries s tags ct;
          s = map_set s tags ''name'' (Name c);
          fields = [''value'' \<mapsto> Value c]
      in AddCounter s ''bind_counter'' fields tags)"
  have step: "emits {} s s4 [counter_obs (heap s ! ct) c]"
    unfolding s4_def using Cons.prems by (rule counter_iteration)
  have ct4: "ct < length (heap s4)" and same: "heap s4 ! ct = heap s ! ct"
    using step Cons.prems by (simp_all add: emits_def)
  have rest: "emits {} s4 (addXMLv2Counter s4 ct stats) (map (counter_obs (heap s ! ct)) stats)"
    using Cons.IH[OF ct4] by (simp add: same)
  have unf: "addXMLv2Counter s ct (c # stats) = addXMLv2Counter s4 ct stats"
    by (simp add: s4_def Let_def split: prod.splits)
  from emits_trans[OF step rest] show ?case
    unfolding unf by simp
qed

lemma typed_group:
  fixes lbl :: string and stats :: "v2Counter list"
  assumes "base < length (heap s)"
  defines "s' \<equiv> addXMLv2Counter (map_set s base ''type'' lbl) base stats"
  shows "emits {base} s s' (map (counter_obs ((heap s ! base)(''type'' \<mapsto> lbl))) stats)"
    and "heap s' ! base = (heap s ! base)(''type'' \<mapsto> lbl)"
    and "base < length (heap s')"
proof -
  let ?s1 = "map_set s base ''type'' lbl"
  have b1: "base < length (heap ?s1)" and h1: "heap ?s1 ! base = (heap s ! base)(''type'' \<mapsto> lbl)"
    using assms(1) by (simp_all add: map_set_def)
  have e1: "emits {base} s ?s1 []"
    by (rule emits_map_set)
  have e2: "emits {} ?s1 s' (map (counter_obs ((heap s ! base)(''type'' \<mapsto> lbl))) stats)"
    using addXMLv2Counter_emits[OF b1, of stats] unfolding h1 s'_def .
  from emits_trans[OF e1 e2]
  show "emits {base} s s' (map (counter_obs ((heap s ! base)(''type'' \<mapsto> lbl))) stats)"
    by simp
  show "heap s' ! base = (heap s ! base)(''type'' \<mapsto> lbl)"
    using emits_frame[OF e2 b1] h1 by simp
  show "base < length (heap s')"
    using emits_length[OF e2 b1] .
qed

lemma gauge_step:
  "emits {} s (let (t, s1) = new_map s m in AddGauge s1 n f t) [(n, Gauge, f, m)]"
  by (simp add: emits_def emitted_def new_map_def AddGauge_def resolve_def nth_append)

lemma memoryContexts_emits:
  "emits {} s (memoryContexts s addr cs) (map (context_obs (Host addr)) cs)"
proof (induction cs arbitrary: s)
  case Nil
  show ?case by (simp add: emits_refl)
next
  case (Cons c cs)
  define s1 where "s1 = (let (t, s1) = new_map s [''url'' \<mapsto> Host addr, ''id'' \<mapsto> ctx_Id c, ''name'' \<mapsto> ctx_Name c]
    in AddGauge s1 ''bind_memory_context'' [''Total'' \<mapsto> Total c, ''InUse'' \<mapsto> ctx_InUse c] t)"
  have step: "emits {} s s1 [context_obs (Host addr) c]"
    unfolding s1_def context_obs_def by (rule gauge_step)
  have unf: "memoryContexts s addr (c # cs) = memoryContexts s1 addr cs"
    by (simp add: s1_def Let_def split: prod.splits)
  note rest = Cons.IH [of s1]
  from emits_trans [OF step rest] show ?case
    unfolding unf by simp
qed

lemma view_iteration:
  defines "body s addr v \<equiv> (let (tags, s) = new_map s [''url'' \<mapsto> Host addr, ''view'' \<mapsto> view_Name v];
          s = map_set s tags ''type'' ''qtype'';
          s = addXMLv2Counter s tags (view_RdTypes v);
          s = map_set s tags ''type'' ''resstats''
      in addXMLv2Counter s tags (view_ResStats v))"
  shows "emits {} s (body s addr v) (view_obs (Host addr) v)"
proof -
  let ?m = "[''url'' \<mapsto> Host addr, ''view'' \<mapsto> view_Name v]"
  let ?b = "length (heap s)"
  define sA where "sA = snd (new_map s ?m)"
  define s1 where "s1 = addXMLv2Counter (map_set sA ?b ''type'' ''qtype'') ?b (view_RdTypes v)"
  define s2 where "s2 = addXMLv2Counter (map_set s1 ?b ''type'' ''resstats'') ?b (view_ResStats v)"
  have bA: "?b < length (heap sA)" and hA: "heap sA ! ?b = ?m"
    by (simp_all add: sA_def new_map_def)
  note g1 = typed_group[OF bA, of "''qtype''" "view_RdTypes v", folded s1_def, unfolded hA]
  note g2 = typed_group[OF g1(3), of "''resstats''" "view_ResStats v", folded s2_def, unfolded g1(2)]
  have "emits ({?b} \<union> {?b}) sA s2 (view_obs (Host addr) v)"
    unfolding view_obs_def using emits_trans[OF g1(1) g2(1)] bA by simp
  then have "emits {?b} (snd (new_map s ?m)) s2 (view_obs (Host addr) v)"
    by (simp add: sA_def)
  from emits_new_map[OF this] have "emits {} s s2 (view_obs (Host addr) v)"
    by simp
  moreover have "body s addr v = s2"
    by (simp add: body_def s2_def s1_def sA_def new_map_def Let_def)
  ultimately show ?thesis by simp
qed

lemma views_emits:
  "emits {} s (views s addr vs) (concat (map (view_obs (Host addr)) vs))"
proof (induction vs arbitrary: s)
  case Nil
  show ?case by (simp add: emits_refl)
next
  case (Cons v vs)
  define s1 where "s1 = (let (tags, s) = new_map s [''url'' \<mapsto> Host addr, ''view'' \<mapsto> view_Name v];
          s = map_set s tags ''type'' ''qtype'';
          s = addXMLv2Counter s tags (view_RdTypes v);
          s = map_set s tags ''type'' ''resstats''
      in addXMLv2Counter s tags (view_ResStats v))"
  have step: "emits {} s s1 (view_obs (Host addr) v)"
    unfolding s1_def by (rule view_iteration)
  have unf: "views s addr (v # vs) = views s1 addr vs"
    by (simp add: s1_def Let_def split: prod.splits)
  note rest = Cons.IH [of s1]
  from emits_trans [OF step rest] show ?case
    unfolding unf by simp
qed

lemma readStatsXMLv2_success:
  assumes get: "client_Get (url_String addr) = Inr resp"
    and ok: "StatusCode resp = StatusOK"
    and dec: "xml_Decode (Body resp) = Inr stats"
  shows "fst (readStatsXMLv2 b client_Get xml_Decode addr s0) = None"
    and "emits {} s0 (snd (readStatsXMLv2 b client_Get xml_Decode addr s0))
           (cycle_obs b (Host addr) (Statistics stats))"
    and "heap (snd (readStatsXMLv2 b client_Get xml_Decode addr s0)) ! length (heap s0)
           = [''url'' \<mapsto> Host addr, ''type'' \<mapsto> ''sockstat'']"
    and "length (heap s0) < length (heap (snd (readStatsXMLv2 b client_Get xml_Decode addr s0)))"
    and "\<forall>ob\<in>set (emitted s0 (snd (readStatsXMLv2 b client_Get xml_Decode addr s0))).
           length (heap s0) < tags ob"
proof -
  let ?b = "length (heap s0)"
  let ?m = "[''url'' \<mapsto> Host addr]"
  let ?srv = "Server (Statistics stats)"
  let ?mem = "Memory (Statistics stats)"
  define sA where "sA = snd (new_map s0 ?m)"
  define s1 where "s1 = addXMLv2Counter (map_set sA ?b ''type'' ''opcode'') ?b (OpCodes ?srv)"
  define s2 where "s2 = addXMLv2Counter (map_set s1 ?b ''type'' ''qtype'') ?b (RdTypes ?srv)"
  define s3 where "s3 = addXMLv2Counter (map_set s2 ?b ''type'' ''nsstat'') ?b (NSStats ?srv)"
  define s4 where "s4 = addXMLv2Counter (map_set s3 ?b ''type'' ''zonestat'') ?b (ZoneStats ?srv)"
  define s5 where "s5 = addXMLv2Counter (map_set s4 ?b ''type'' ''sockstat'') ?b (SockStats ?srv)"
  define s6 where "s6 = (let (t, s) = new_map s5 ?m in AddGauge s ''bind_memory''
       [''TotalUse'' \<mapsto> TotalUse (Summary ?mem), ''InUse'' \<mapsto> InUse (Summary ?mem),
        ''BlockSize'' \<mapsto> BlockSize (Summary ?mem), ''ContextSize'' \<mapsto> ContextSize (Summary ?mem),
        ''Lost'' \<mapsto> Lost (Summary ?mem)] t)"
  define s7 where "s7 = (if GatherMemoryContexts b then memoryContexts s6 addr (Contexts ?mem) else s6)"
  define s8 where "s8 = (if GatherViews b then views s7 addr (Views (Statistics stats)) else s7)"
  have run: "readStatsXMLv2 b client_Get xml_Decode addr s0 = (None, s8)"
    by (simp add: readStatsXMLv2_def get ok dec s8_def s7_def s6_def s5_def s4_def s3_def s2_def
        s1_def sA_def new_map_def Let_def)
  have bA: "?b < length (heap sA)" and hA: "heap sA ! ?b = ?m"
    by (simp_all add: sA_def new_map_def)
  note g1 = typed_group[OF bA, of "''opcode''" "OpCodes ?srv", folded s1_def, unfolded hA]
  note g2 = typed_group[OF g1(3), of "''qtype''" "RdTypes ?srv", folded s2_def, unfolded g1(2)]
  note g3 = typed_group[OF g2(3), of "''nsstat''" "NSStats ?srv", folded s3_def, unfolded g2(2)]
  note g4 = typed_group[OF g3(3), of "''zonestat''" "ZoneStats ?srv", folded s4_def, unfolded g3(2)]
  note g5 = typed_group[OF g4(3), of "''sockstat''" "SockStats ?srv", folded s5_def, unfolded g4(2)]
  have sub: "{?b} \<subseteq> {..<length (heap sA)}"
    using bA by simp
  have e5: "emits {?b} sA s5 (server_obs (Host addr) ?srv)"
    unfolding server_obs_def
    using emits_trans[OF emits_trans[OF emits_trans[OF emits_trans[OF g1(1) g2(1) sub] g3(1) sub] g4(1) sub] g5(1) sub]
    by simp
  have e6: "emits {} s5 s6 [memory_obs (Host addr) (Summary ?mem)]"
    unfolding s6_def memory_obs_def by (rule gauge_step)
  have e7: "emits {} s6 s7
      (if GatherMemoryContexts b then map (context_obs (Host addr)) (Contexts ?mem) else [])"
    by (simp add: s7_def memoryContexts_emits emits_refl)
  have e8: "emits {} s7 s8
      (if GatherViews b then concat (map (view_obs (Host addr)) (Views (Statistics stats))) else [])"
    by (simp add: s8_def views_emits emits_refl)
  have e58: "emits {} s5 s8 ([memory_obs (Host addr) (Summary ?mem)] @
      (if GatherMemoryContexts b then map (context_obs (Host addr)) (Contexts ?mem) else []) @
      (if GatherViews b then concat (map (view_obs (Host addr)) (Views (Statistics stats))) else []))"
    using emits_trans[OF emits_trans[OF e6 e7] e8] by simp
  have eA: "emits ({?b} \<union> {}) sA s8 (cycle_obs b (Host addr) (Statistics stats))"
    unfolding cycle_obs_def using emits_trans[OF e5 e58] by simp
  have "emitted sA s8 = emitted s0 s8" and "length (heap sA) = Suc ?b"
    by (simp_all add: emitted_def sA_def new_map_def)
  with eA have above: "\<forall>ob\<in>set (emitted s0 s8). ?b < tags ob"
    by (auto simp: emits_def)
  from eA have "emits {?b} (snd (new_map s0 ?m)) s8 (cycle_obs b (Host addr) (Statistics stats))"
    by (simp add: sA_def)
  from emits_new_map[OF this]
  have all: "emits {} s0 s8 (cycle_obs b (Host addr) (Statistics stats))"
    by simp
  have h8: "heap s8 ! ?b = [''url'' \<mapsto> Host addr, ''type'' \<mapsto> ''sockstat'']"
    using emits_frame[OF e58 g5(3)] g5(2) by simp
  have b8: "?b < length (heap s8)"
    using emits_length[OF e58 g5(3)] .
  show "fst (readStatsXMLv2 b client_Get xml_Decode addr s0) = None"
    by (simp add: run)
  show "emits {} s0 (snd (readStatsXMLv2 b client_Get xml_Decode addr s0))
           (cycle_obs b (Host addr) (Statistics stats))"
    using all by (simp add: run)
  show "heap (snd (readStatsXMLv2 b client_Get xml_Decode addr s0)) ! length (heap s0)
           = [''url'' \<mapsto> Host addr, ''type'' \<mapsto> ''sockstat'']"
    using h8 by (simp add: run)
  show "length (heap s0) < length (heap (snd (readStatsXMLv2 b client_Get xml_Decode addr s0)))"
    using b8 by (simp add: run)
  show "\<forall>ob\<in>set (emitted s0 (snd (readStatsXMLv2 b client_Get xml_Decode addr s0))).
           length (heap s0) < tags ob"
    using above by (simp add: run)
qed

lemma readStatsXMLv2_cases:
  "snd (readStatsXMLv2 b client_Get xml_Decode addr s0) = s0 \<or>
   (\<exists>resp stats. client_Get (url_String addr) = Inr resp \<and> StatusCode resp = StatusOK \<and>
      xml_Decode (Body resp) = Inr stats)"
proof (cases "client_Get (url_String addr)")
  case (Inl err)
  then show ?thesis by (simp add: readStatsXMLv2_def)
next
  case (Inr resp)
  show ?thesis
  proof (cases "StatusCode resp = StatusOK")
    case False
    with Inr show ?thesis by (simp add: readStatsXMLv2_def)
  next
    case True
    show ?thesis
    proof (cases "xml_Decode (Body resp)")
      case (Inl err)
      with Inr True show ?thesis by (simp add: readStatsXMLv2_def)
    next
      case (Inr stats)
      with \<open>client_Get (url_String addr) = Inr resp\<close> True show ?thesis by blast
    qed
  qed
qed

lemma fixture_run:
  "readStatsXMLv2 summary_only (answer 200 ''200 OK'') (decodes_to fixture_doc) example_addr
     caller_state = (None, fixture_final)"
  by (simp add: readStatsXMLv2_def answer_def canned_def decodes_to_def fixture_doc_def document_def
      query42_def example_addr_def caller_state_def fixture_final_def summary_only_def
      StatusOK_def new_map_def map_set_def copy_entries_def AddCounter_def AddGauge_def Let_def)

lemma fixture_emitted:
  "emitted caller_state fixture_final = acc fixture_final"
  by (simp add: emitted_def caller_state_def)

lemma views_with_caches:
  "views s addr (map (\<lambda>v. v\<lparr>Caches := f v\<rparr>) vs) = views s addr vs"
  by (induction vs arbitrary: s) (simp_all add: Let_def split: prod.splits)

lemma cycle_obs_no_view:
  assumes "\<not> GatherViews b" and "x \<in> set (cycle_obs b host st)"
  shows "''view'' \<notin> dom (snd (snd (snd x)))"
  using assms
  by (auto simp: cycle_obs_def server_obs_def counter_obs_def memory_obs_def context_obs_def
      split: if_splits)

section \<open>Failed cycles\<close>

text \<open>
  C3. When the decoder returns an error (the response was fetched with status 200), the
  cycle returns that error wrapped as a decode error and the state is the one the call
  started in: the accumulator received no call and no tag map was allocated.
\<close>

theorem decode_failure_emits_nothing:
  assumes "client_Get (url_String addr) = Inr resp"
    and "StatusCode resp = StatusOK"
    and "xml_Decode (Body resp) = Inl err"
  shows "readStatsXMLv2 b client_Get xml_Decode addr s = (Some (DecodeError err), s)
         \<and> emitted s (snd (readStatsXMLv2 b client_Get xml_Decode addr s)) = []"
  using assms by (simp add: readStatsXMLv2_def emitted_def)

theorem decode_failure_emits_nothing_witness:
  "answer 200 ''200 OK'' (url_String example_addr) = Inr (canned 200 ''200 OK'')
   \<and> StatusCode (canned 200 ''200 OK'') = StatusOK
   \<and> readStatsXMLv2 summary_only (answer 200 ''200 OK'') (\<lambda>body. Inl ''XML syntax error'')
        example_addr caller_state
     = (Some (DecodeError ''XML syntax error''), caller_state)"
  using decode_failure_emits_nothing
    [of "answer 200 ''200 OK''" example_addr "canned 200 ''200 OK''"
        "\<lambda>body. Inl ''XML syntax error''" "''XML syntax error''" summary_only caller_state]
  by (simp add: StatusOK_def answer_def canned_def)

text \<open>
  C5 (as amended). The guard compares the status code with 200 alone. Any other status,
  also another one of the 2xx class, ends the cycle with the status error, which carries
  the target and the status text of the response, and leaves the state as it was. With
  status 200 the body goes to the decoder: the cycle ends with the decoder's error and
  the state as it was, or the decoder succeeds and the cycle returns no error.
\<close>

theorem status_guard:
  assumes "client_Get (url_String addr) = Inr resp"
  shows "(StatusCode resp \<noteq> 200 \<longrightarrow>
            readStatsXMLv2 b client_Get xml_Decode addr s
              = (Some (StatusError (url_String addr) (Status resp)), s))
       \<and> (StatusCode resp = 200 \<longrightarrow>
            (case xml_Decode (Body resp) of
               Inl err \<Rightarrow> readStatsXMLv2 b client_Get xml_Decode addr s
                            = (Some (DecodeError err), s)
             | Inr stats \<Rightarrow> fst (readStatsXMLv2 b client_Get xml_Decode addr s) = None))"
proof (intro conjI impI)
  assume "StatusCode resp \<noteq> 200"
  with assms show "readStatsXMLv2 b client_Get xml_Decode addr s
      = (Some (StatusError (url_String addr) (Status resp)), s)"
    by (simp add: readStatsXMLv2_def StatusOK_def)
next
  assume ok: "StatusCode resp = 200"
  show "case xml_Decode (Body resp) of
          Inl err \<Rightarrow> readStatsXMLv2 b client_Get xml_Decode addr s = (Some (DecodeError err), s)
        | Inr stats \<Rightarrow> fst (readStatsXMLv2 b client_Get xml_Decode addr s) = None"
  proof (cases "xml_Decode (Body resp)")
    case (Inl err)
    with assms ok show ?thesis by (simp add: readStatsXMLv2_def StatusOK_def)
  next
    case (Inr stats)
    with assms ok show ?thesis
      by (simp add: readStatsXMLv2_success(1) StatusOK_def)
  qed
qed

theorem status_guard_witness:
  "readStatsXMLv2 summary_only (answer 404 ''404 Not Found'') (decodes_to fixture_doc)
      example_addr caller_state
     = (Some (StatusError ''http://example:8053'' ''404 Not Found''), caller_state)
   \<and> fst (readStatsXMLv2 summary_only (answer 200 ''200 OK'') (decodes_to fixture_doc)
      example_addr caller_state) = None"
  using
    status_guard [of "answer 404 ''404 Not Found''" example_addr "canned 404 ''404 Not Found''"
      summary_only "decodes_to fixture_doc" caller_state]
    status_guard [of "answer 200 ''200 OK''" example_addr "canned 200 ''200 OK''"
      summary_only "decodes_to fixture_doc" caller_state]
  by (simp add: answer_def canned_def decodes_to_def example_addr_def)

text \<open>The claim as stated fails at status 204: the response is of the 2xx class and its
  body would decode, yet the cycle ends with the status error and emits nothing.\<close>

theorem status_204_counterexample:
  "readStatsXMLv2 summary_only (answer 204 ''204 No Content'') (decodes_to fixture_doc)
      example_addr caller_state
     = (Some (StatusError ''http://example:8053'' ''204 No Content''), caller_state)"
  by (simp add: readStatsXMLv2_def answer_def canned_def example_addr_def StatusOK_def)

section \<open>What the reader does not look at\<close>

text \<open>
  C2 (as amended). The reader never inspects a version marker: whatever the two version
  attributes of a decoded document are, the cycle returns the same result and leaves the
  same state. A document marked \<open>v9\<close> is read like one marked \<open>2\<close>.
\<close>

theorem version_not_inspected:
  "readStatsXMLv2 b client_Get (\<lambda>body. map_sum id (with_version v v') (xml_Decode body)) addr s
     = readStatsXMLv2 b client_Get xml_Decode addr s"
proof (cases "client_Get (url_String addr)")
  case (Inl err)
  then show ?thesis by (simp add: readStatsXMLv2_def)
next
  case (Inr resp)
  show ?thesis
  proof (cases "xml_Decode (Body resp)")
    case (Inl err)
    with Inr show ?thesis by (simp add: readStatsXMLv2_def)
  next
    case (Inr stats)
    with \<open>client_Get (url_String addr) = Inr resp\<close> show ?thesis
      by (simp add: readStatsXMLv2_def with_version_def new_map_def Let_def)
  qed
qed

theorem version_not_inspected_witness:
  "readStatsXMLv2 summary_only (answer 200 ''200 OK'')
     (\<lambda>body. map_sum id (with_version ''v9'' ''9.9'') (decodes_to fixture_doc body))
     example_addr caller_state = (None, fixture_final)"
  using version_not_inspected [of summary_only "answer 200 ''200 OK''" "''v9''" "''9.9''"
      "decodes_to fixture_doc" example_addr caller_state] fixture_run
  by simp

text \<open>The claim as stated fails for the document marked \<open>v9\<close>: the cycle returns no
  error and the accumulator receives the counter and the memory summary.\<close>

theorem version_v9_counterexample:
  "fst (readStatsXMLv2 summary_only (answer 200 ''200 OK'') (decodes_to v9_doc) example_addr
          caller_state) = None
   \<and> map measurement (acc (snd (readStatsXMLv2 summary_only (answer 200 ''200 OK'')
          (decodes_to v9_doc) example_addr caller_state)))
     = [''bind_counter'', ''bind_memory'']"
  by (simp add: readStatsXMLv2_def answer_def canned_def decodes_to_def v9_doc_def document_def
      query42_def example_addr_def caller_state_def summary_only_def
      StatusOK_def new_map_def map_set_def copy_entries_def AddCounter_def AddGauge_def Let_def)

text \<open>
  C10. The cache sections of the views are decoded and never read: replacing them by
  anything else changes neither the result of the cycle nor the state it leaves, so no
  call to the accumulator and no tag depends on them.
\<close>

theorem caches_never_emitted:
  "readStatsXMLv2 b client_Get (\<lambda>body. map_sum id (with_caches f) (xml_Decode body)) addr s
     = readStatsXMLv2 b client_Get xml_Decode addr s"
proof (cases "client_Get (url_String addr)")
  case (Inl err)
  then show ?thesis by (simp add: readStatsXMLv2_def)
next
  case (Inr resp)
  show ?thesis
  proof (cases "xml_Decode (Body resp)")
    case (Inl err)
    with Inr show ?thesis by (simp add: readStatsXMLv2_def)
  next
    case (Inr stats)
    with \<open>client_Get (url_String addr) = Inr resp\<close> show ?thesis
      by (simp add: readStatsXMLv2_def with_caches_def views_with_caches new_map_def Let_def)
  qed
qed

theorem caches_never_emitted_witness:
  "readStatsXMLv2 \<lparr>GatherMemoryContexts = True, GatherViews = True\<rparr> (answer 200 ''200 OK'')
     (\<lambda>body. map_sum id (with_caches (\<lambda>v. [])) (decodes_to view_doc body))
     example_addr caller_state
   = readStatsXMLv2 \<lparr>GatherMemoryContexts = True, GatherViews = True\<rparr> (answer 200 ''200 OK'')
     (decodes_to view_doc) example_addr caller_state"
  using caches_never_emitted [of "\<lparr>GatherMemoryContexts = True, GatherViews = True\<rparr>"
      "answer 200 ''200 OK''" "\<lambda>v. []" "decodes_to view_doc" example_addr caller_state]
  by simp

section \<open>What a successful cycle emits\<close>

text \<open>
  C1 (as amended). After a successful decode the first calls the accumulator receives in
  the cycle are, in this order, one Counter observation for every counter of the five
  server groups the code walks (opcodes, query types, name-server stats, zone stats,
  socket stats), each named \<open>bind_counter\<close>, with the field \<open>value\<close> and the tags
  \<open>url\<close>, \<open>type\<close> (\<open>opcode\<close>, \<open>qtype\<close>, \<open>nsstat\<close>, \<open>zonestat\<close>, \<open>sockstat\<close>) and
  \<open>name\<close>. Nothing is said about the resolver-stats group of the server section.
\<close>

theorem server_counters_emitted:
  assumes "client_Get (url_String addr) = Inr resp"
    and "StatusCode resp = StatusOK"
    and "xml_Decode (Body resp) = Inr stats"
    and "readStatsXMLv2 b client_Get xml_Decode addr s0 = (r, s)"
  shows "r = None \<and>
    take (length (OpCodes (Server (Statistics stats))) + length (RdTypes (Server (Statistics stats)))
          + length (NSStats (Server (Statistics stats))) + length (ZoneStats (Server (Statistics stats)))
          + length (SockStats (Server (Statistics stats))))
      (map (resolve s) (emitted s0 s))
    = map (counter_obs [''url'' \<mapsto> Host addr, ''type'' \<mapsto> ''opcode''])
        (OpCodes (Server (Statistics stats))) @
      map (counter_obs [''url'' \<mapsto> Host addr, ''type'' \<mapsto> ''qtype''])
        (RdTypes (Server (Statistics stats))) @
      map (counter_obs [''url'' \<mapsto> Host addr, ''type'' \<mapsto> ''nsstat''])
        (NSStats (Server (Statistics stats))) @
      map (counter_obs [''url'' \<mapsto> Host addr, ''type'' \<mapsto> ''zonestat''])
        (ZoneStats (Server (Statistics stats))) @
      map (counter_obs [''url'' \<mapsto> Host addr, ''type'' \<mapsto> ''sockstat''])
        (SockStats (Server (Statistics stats)))"
proof -
  let ?srv = "Server (Statistics stats)"
  from assms(4) have s: "s = snd (readStatsXMLv2 b client_Get xml_Decode addr s0)"
    and r: "r = fst (readStatsXMLv2 b client_Get xml_Decode addr s0)"
    by simp_all
  have none: "r = None"
    unfolding r using assms(1-3) by (rule readStatsXMLv2_success(1))
  have "emits {} s0 s (cycle_obs b (Host addr) (Statistics stats))"
    unfolding s using assms(1-3) by (rule readStatsXMLv2_success(2))
  then have all: "map (resolve s) (emitted s0 s) = cycle_obs b (Host addr) (Statistics stats)"
    by (simp add: emits_def)
  have len: "length (server_obs (Host addr) ?srv)
      = length (OpCodes ?srv) + length (RdTypes ?srv) + length (NSStats ?srv)
        + length (ZoneStats ?srv) + length (SockStats ?srv)"
    by (simp add: server_obs_def)
  have "take (length (server_obs (Host addr) ?srv)) (map (resolve s) (emitted s0 s))
      = server_obs (Host addr) ?srv"
    unfolding all cycle_obs_def by simp
  then show ?thesis
    unfolding len using none by (simp only: server_obs_def simp_thms)
qed

theorem server_counters_emitted_witness:
  "answer 200 ''200 OK'' (url_String example_addr) = Inr (canned 200 ''200 OK'')
   \<and> StatusCode (canned 200 ''200 OK'') = StatusOK
   \<and> decodes_to fixture_doc (Body (canned 200 ''200 OK'')) = Inr fixture_doc
   \<and> readStatsXMLv2 summary_only (answer 200 ''200 OK'') (decodes_to fixture_doc) example_addr
        caller_state = (None, fixture_final)
   \<and> take 1 (map (resolve fixture_final) (emitted caller_state fixture_final))
       = [counter_obs [''url'' \<mapsto> ''example:8053'', ''type'' \<mapsto> ''opcode''] query42]"
proof -
  have 1: "answer 200 ''200 OK'' (url_String example_addr) = Inr (canned 200 ''200 OK'')"
    by (simp add: answer_def)
  have 2: "StatusCode (canned 200 ''200 OK'') = StatusOK"
    by (simp add: canned_def StatusOK_def)
  have 3: "decodes_to fixture_doc (Body (canned 200 ''200 OK'')) = Inr fixture_doc"
    by (simp add: decodes_to_def)
  from server_counters_emitted [OF 1 2 3 fixture_run] 1 2 3 fixture_run show ?thesis
    by (simp add: fixture_doc_def document_def example_addr_def)
qed

text \<open>The claim as stated fails for a document whose server section holds one opcode
  counter and one resolver-stats counter: the accumulator receives a single Counter
  observation, named \<open>bind_counter\<close>, and the memory summary. The resolver-stats
  counter yields no observation and no observation is named \<open>stat_counter\<close>.\<close>

theorem server_counters_counterexample:
  "ResStats (Server (Statistics resstat_doc)) = [\<lparr>Name = ''Queryv4'', Value = 7\<rparr>]
   \<and> map measurement (acc (snd (readStatsXMLv2 summary_only (answer 200 ''200 OK'')
          (decodes_to resstat_doc) example_addr caller_state)))
       = [''bind_counter'', ''bind_memory'']
   \<and> map kind (acc (snd (readStatsXMLv2 summary_only (answer 200 ''200 OK'')
          (decodes_to resstat_doc) example_addr caller_state)))
       = [Counter, Gauge]"
  by (simp add: readStatsXMLv2_def answer_def canned_def decodes_to_def resstat_doc_def
      document_def query42_def example_addr_def caller_state_def summary_only_def
      StatusOK_def new_map_def map_set_def copy_entries_def AddCounter_def AddGauge_def Let_def)

text \<open>
  C8 (as amended). A document whose opcode group holds the one counter \<open>QUERY = 42\<close>,
  with the other emitted server groups and the views empty, yields exactly one Counter
  observation: measurement \<open>bind_counter\<close>, fields \<open>{value: 42}\<close>, tags
  \<open>{url: host of the target, type: opcode, name: QUERY}\<close>.
\<close>

theorem fixture_counter_observation:
  assumes "client_Get (url_String addr) = Inr resp"
    and "StatusCode resp = StatusOK"
    and "xml_Decode (Body resp) = Inr stats"
    and "readStatsXMLv2 b client_Get xml_Decode addr s0 = (r, s)"
    and "OpCodes (Server (Statistics stats)) = [\<lparr>Name = ''QUERY'', Value = 42\<rparr>]"
    and "RdTypes (Server (Statistics stats)) = []"
    and "NSStats (Server (Statistics stats)) = []"
    and "ZoneStats (Server (Statistics stats)) = []"
    and "SockStats (Server (Statistics stats)) = []"
    and "Views (Statistics stats) = []"
  shows "filter (\<lambda>x. fst (snd x) = Counter) (map (resolve s) (emitted s0 s))
    = [(''bind_counter'', Counter, [''value'' \<mapsto> 42],
        [''url'' \<mapsto> Host addr, ''type'' \<mapsto> ''opcode'', ''name'' \<mapsto> ''QUERY''])]"
proof -
  from assms(4) have s: "s = snd (readStatsXMLv2 b client_Get xml_Decode addr s0)"
    by simp
  have "emits {} s0 s (cycle_obs b (Host addr) (Statistics stats))"
    unfolding s using assms(1-3) by (rule readStatsXMLv2_success(2))
  then have all: "map (resolve s) (emitted s0 s) = cycle_obs b (Host addr) (Statistics stats)"
    by (simp add: emits_def)
  have gauges: "filter (\<lambda>x. fst (snd x) = Counter) (map (context_obs h) cs) = []" for h cs
    by (induction cs) (simp_all add: context_obs_def)
  show ?thesis
    unfolding all
    by (simp add: cycle_obs_def server_obs_def assms(5-10) counter_obs_def memory_obs_def gauges)
qed

theorem fixture_counter_observation_witness:
  "filter (\<lambda>x. fst (snd x) = Counter) (map (resolve fixture_final) (emitted caller_state fixture_final))
    = [(''bind_counter'', Counter, [''value'' \<mapsto> 42],
        [''url'' \<mapsto> ''example:8053'', ''type'' \<mapsto> ''opcode'', ''name'' \<mapsto> ''QUERY''])]"
proof -
  have 1: "answer 200 ''200 OK'' (url_String example_addr) = Inr (canned 200 ''200 OK'')"
    by (simp add: answer_def)
  have 2: "StatusCode (canned 200 ''200 OK'') = StatusOK"
    by (simp add: canned_def StatusOK_def)
  have 3: "decodes_to fixture_doc (Body (canned 200 ''200 OK'')) = Inr fixture_doc"
    by (simp add: decodes_to_def)
  have 4: "OpCodes (Server (Statistics fixture_doc)) = [\<lparr>Name = ''QUERY'', Value = 42\<rparr>]"
    "RdTypes (Server (Statistics fixture_doc)) = []"
    "NSStats (Server (Statistics fixture_doc)) = []"
    "ZoneStats (Server (Statistics fixture_doc)) = []"
    "SockStats (Server (Statistics fixture_doc)) = []"
    "Views (Statistics fixture_doc) = []"
    by (simp_all add: fixture_doc_def document_def query42_def)
  from fixture_counter_observation [OF 1 2 3 fixture_run 4] show ?thesis
    by (simp add: example_addr_def)
qed

text \<open>The claim as stated fails at the fixture: the one Counter observation is named
  \<open>bind_counter\<close>, and no observation is named \<open>stat_counter\<close>.\<close>

theorem fixture_measurement_counterexample:
  "map measurement (acc (snd (readStatsXMLv2 summary_only (answer 200 ''200 OK'')
       (decodes_to fixture_doc) example_addr \<lparr>heap = [], acc = []\<rparr>)))
     = [''bind_counter'', ''bind_memory'']
   \<and> map kind (acc (snd (readStatsXMLv2 summary_only (answer 200 ''200 OK'')
       (decodes_to fixture_doc) example_addr \<lparr>heap = [], acc = []\<rparr>)))
     = [Counter, Gauge]
   \<and> ''stat_counter'' \<notin> set (map measurement (acc (snd (readStatsXMLv2 summary_only
       (answer 200 ''200 OK'') (decodes_to fixture_doc) example_addr \<lparr>heap = [], acc = []\<rparr>))))"
  by (simp add: readStatsXMLv2_def answer_def canned_def decodes_to_def fixture_doc_def
      document_def query42_def example_addr_def summary_only_def
      StatusOK_def new_map_def map_set_def copy_entries_def AddCounter_def AddGauge_def Let_def)

text \<open>
  C9. With \<open>GatherViews\<close> off, no observation emitted in the cycle carries a \<open>view\<close>
  tag, whatever the document holds and however the cycle ends.
\<close>

theorem no_view_tag_without_GatherViews:
  assumes "\<not> GatherViews b"
    and "readStatsXMLv2 b client_Get xml_Decode addr s0 = (r, s)"
    and "ob \<in> set (emitted s0 s)"
  shows "''view'' \<notin> dom (heap s ! tags ob)"
proof -
  from assms(2) have s: "s = snd (readStatsXMLv2 b client_Get xml_Decode addr s0)"
    by simp
  from readStatsXMLv2_cases [of b client_Get xml_Decode addr s0]
  show ?thesis
  proof
    assume "snd (readStatsXMLv2 b client_Get xml_Decode addr s0) = s0"
    with s assms(3) show ?thesis by (simp add: emitted_def)
  next
    assume "\<exists>resp stats. client_Get (url_String addr) = Inr resp \<and> StatusCode resp = StatusOK \<and>
      xml_Decode (Body resp) = Inr stats"
    then obtain resp stats where ok: "client_Get (url_String addr) = Inr resp"
      "StatusCode resp = StatusOK" "xml_Decode (Body resp) = Inr stats"
      by blast
    have "emits {} s0 s (cycle_obs b (Host addr) (Statistics stats))"
      unfolding s using ok by (rule readStatsXMLv2_success(2))
    then have "map (resolve s) (emitted s0 s) = cycle_obs b (Host addr) (Statistics stats)"
      by (simp add: emits_def)
    with assms(3) have "resolve s ob \<in> set (cycle_obs b (Host addr) (Statistics stats))"
      by (metis image_eqI set_map)
    from cycle_obs_no_view [OF assms(1) this] show ?thesis
      by (simp add: resolve_def)
  qed
qed

theorem no_view_tag_without_GatherViews_witness:
  "\<not> GatherViews summary_only
   \<and> readStatsXMLv2 summary_only (answer 200 ''200 OK'') (decodes_to view_doc) example_addr
        caller_state = (None, fixture_final)
   \<and> hd (acc fixture_final) \<in> set (emitted caller_state fixture_final)
   \<and> ''view'' \<notin> dom (heap fixture_final ! tags (hd (acc fixture_final)))"
proof -
  have 1: "\<not> GatherViews summary_only"
    by (simp add: summary_only_def)
  have 2: "readStatsXMLv2 summary_only (answer 200 ''200 OK'') (decodes_to view_doc) example_addr
        caller_state = (None, fixture_final)"
    by (simp add: readStatsXMLv2_def answer_def canned_def decodes_to_def view_doc_def document_def
      query42_def example_addr_def caller_state_def fixture_final_def summary_only_def
      StatusOK_def new_map_def map_set_def copy_entries_def AddCounter_def AddGauge_def Let_def)
  have 3: "hd (acc fixture_final) \<in> set (emitted caller_state fixture_final)"
    by (simp add: fixture_emitted) (simp add: fixture_final_def)
  from no_view_tag_without_GatherViews [OF 1 2 3] 1 2 3 show ?thesis
    by simp
qed

section \<open>Tag maps and aliasing\<close>

text \<open>\<open>addXMLv2Counter\<close> writes the \<open>name\<close> tag into the copies it makes: the map it was
  given holds afterwards what it held before, and no observation refers to it.\<close>

lemma addXMLv2Counter_commonTags:
  assumes "commonTags < length (heap t)"
  shows "heap (addXMLv2Counter t commonTags stats) ! commonTags = heap t ! commonTags"
    and "\<forall>ob\<in>set (emitted t (addXMLv2Counter t commonTags stats)). tags ob \<noteq> commonTags"
proof -
  note e = addXMLv2Counter_emits [OF assms, of stats]
  show "heap (addXMLv2Counter t commonTags stats) ! commonTags = heap t ! commonTags"
    using emits_frame [OF e assms] by simp
  show "\<forall>ob\<in>set (emitted t (addXMLv2Counter t commonTags stats)). tags ob \<noteq> commonTags"
    using e assms by (auto simp: emits_def)
qed

text \<open>
  C6 (as amended). The \<open>name\<close> tag is attached to a copy: \<open>addXMLv2Counter\<close> leaves the
  map it is given with the entries it had. The \<open>type\<close> tag, however, is written into
  the base map itself: the map that \<open>readStatsXMLv2\<close> builds from the URL (the first
  map the call allocates) holds, after a successful cycle, its \<open>url\<close> entry and
  \<open>type = sockstat\<close>. The maps that existed before the call are as they were.
\<close>

theorem base_map_after_emission:
  assumes "client_Get (url_String addr) = Inr resp"
    and "StatusCode resp = StatusOK"
    and "xml_Decode (Body resp) = Inr stats"
    and "readStatsXMLv2 b client_Get xml_Decode addr s0 = (r, s)"
    and "commonTags < length (heap t)"
  shows "heap s ! length (heap s0) = [''url'' \<mapsto> Host addr, ''type'' \<mapsto> ''sockstat'']
       \<and> (\<forall>a<length (heap s0). heap s ! a = heap s0 ! a)
       \<and> heap (addXMLv2Counter t commonTags counters) ! commonTags = heap t ! commonTags"
proof -
  from assms(4) have s: "s = snd (readStatsXMLv2 b client_Get xml_Decode addr s0)"
    by simp
  have base: "heap s ! length (heap s0) = [''url'' \<mapsto> Host addr, ''type'' \<mapsto> ''sockstat'']"
    unfolding s using assms(1-3) by (rule readStatsXMLv2_success(3))
  have "emits {} s0 s (cycle_obs b (Host addr) (Statistics stats))"
    unfolding s using assms(1-3) by (rule readStatsXMLv2_success(2))
  then have old: "\<forall>a<length (heap s0). heap s ! a = heap s0 ! a"
    by (simp add: emits_def)
  from base old addXMLv2Counter_commonTags(1) [OF assms(5), of counters] show ?thesis
    by blast
qed

theorem base_map_after_emission_witness:
  "heap fixture_final ! length (heap caller_state)
      = [''url'' \<mapsto> ''example:8053'', ''type'' \<mapsto> ''sockstat'']
   \<and> heap fixture_final ! 0 = heap caller_state ! 0
   \<and> heap (addXMLv2Counter fixture_final 1 [query42]) ! 1 = heap fixture_final ! 1"
proof -
  have 1: "answer 200 ''200 OK'' (url_String example_addr) = Inr (canned 200 ''200 OK'')"
    by (simp add: answer_def)
  have 2: "StatusCode (canned 200 ''200 OK'') = StatusOK"
    by (simp add: canned_def StatusOK_def)
  have 3: "decodes_to fixture_doc (Body (canned 200 ''200 OK'')) = Inr fixture_doc"
    by (simp add: decodes_to_def)
  have 5: "1 < length (heap fixture_final)"
    by (simp add: fixture_final_def)
  have 6: "(0::nat) < length (heap caller_state)"
    by (simp add: caller_state_def)
  from base_map_after_emission [OF 1 2 3 fixture_run 5, of "[query42]"] 6 show ?thesis
    by (simp add: example_addr_def)
qed

text \<open>The claim as stated fails at the fixture: the base map started as \<open>{url}\<close> and
  holds a \<open>type\<close> entry when the cycle is over.\<close>

theorem base_map_counterexample:
  "(heap (snd (readStatsXMLv2 summary_only (answer 200 ''200 OK'') (decodes_to fixture_doc)
       example_addr caller_state)) ! length (heap caller_state)) ''type'' = Some ''sockstat''
   \<and> [''url'' \<mapsto> Host example_addr] ''type'' = None"
  by (simp add: readStatsXMLv2_def answer_def canned_def decodes_to_def fixture_doc_def
      document_def query42_def example_addr_def caller_state_def summary_only_def
      StatusOK_def new_map_def map_set_def copy_entries_def AddCounter_def AddGauge_def Let_def)

text \<open>
  C7. The tag maps of the observations of one cycle are maps of their own. Take two
  different observations of the cycle and write any key of the first one's tag map: that
  map changes, the tag map of the other observation reads as before, and so do the base
  map of the cycle (the map built from the URL, the first one the call allocates) and
  every map that existed before the call. Inside \<open>addXMLv2Counter\<close> the same holds for
  the map it is given, by \<open>addXMLv2Counter_commonTags\<close>.
\<close>

theorem tag_maps_are_fresh_copies:
  assumes "readStatsXMLv2 b client_Get xml_Decode addr s0 = (r, s)"
    and "i < length (emitted s0 s)"
    and "j < length (emitted s0 s)"
    and "i \<noteq> j"
  shows "heap (map_set s (tags (emitted s0 s ! i)) k v) ! tags (emitted s0 s ! i)
           = (heap s ! tags (emitted s0 s ! i))(k \<mapsto> v)
       \<and> heap (map_set s (tags (emitted s0 s ! i)) k v) ! tags (emitted s0 s ! j)
           = heap s ! tags (emitted s0 s ! j)
       \<and> heap (map_set s (tags (emitted s0 s ! i)) k v) ! length (heap s0)
           = heap s ! length (heap s0)
       \<and> (\<forall>a<length (heap s0). heap (map_set s (tags (emitted s0 s ! i)) k v) ! a = heap s0 ! a)"
proof -
  let ?E = "emitted s0 s"
  from assms(1) have s: "s = snd (readStatsXMLv2 b client_Get xml_Decode addr s0)"
    by simp
  have "s \<noteq> s0"
    using assms(2) by (auto simp: emitted_def)
  with readStatsXMLv2_cases [of b client_Get xml_Decode addr s0] s
  obtain resp stats where ok: "client_Get (url_String addr) = Inr resp"
    "StatusCode resp = StatusOK" "xml_Decode (Body resp) = Inr stats"
    by blast
  have e: "emits {} s0 s (cycle_obs b (Host addr) (Statistics stats))"
    unfolding s using ok by (rule readStatsXMLv2_success(2))
  have above: "\<forall>ob\<in>set ?E. length (heap s0) < tags ob"
    unfolding s using ok by (rule readStatsXMLv2_success(5))
  have dist: "distinct (map tags ?E)"
    and rng: "\<forall>ob\<in>set ?E. tags ob < length (heap s)"
    and old: "\<forall>a<length (heap s0). heap s ! a = heap s0 ! a"
    using e by (simp_all add: emits_def)
  have ti: "tags (?E ! i) < length (heap s)" and bi: "length (heap s0) < tags (?E ! i)"
    using rng above assms(2) by simp_all
  have ij: "tags (?E ! i) \<noteq> tags (?E ! j)"
    using dist assms(2-4) nth_eq_iff_index_eq [of "map tags ?E" i j] by simp
  have 1: "heap (map_set s (tags (?E ! i)) k v) ! tags (?E ! i) = (heap s ! tags (?E ! i))(k \<mapsto> v)"
    using ti by (simp add: map_set_def)
  have 2: "heap (map_set s (tags (?E ! i)) k v) ! tags (?E ! j) = heap s ! tags (?E ! j)"
    using ij by (simp add: map_set_def)
  have 3: "heap (map_set s (tags (?E ! i)) k v) ! length (heap s0) = heap s ! length (heap s0)"
    using bi by (simp add: map_set_def)
  have 4: "\<forall>a<length (heap s0). heap (map_set s (tags (?E ! i)) k v) ! a = heap s0 ! a"
    using bi old by (simp add: map_set_def)
  from 1 2 3 4 show ?thesis
    by blast
qed

theorem tag_maps_are_fresh_copies_witness:
  "(0::nat) < length (emitted caller_state fixture_final)
   \<and> (1::nat) < length (emitted caller_state fixture_final)
   \<and> heap (map_set fixture_final (tags (emitted caller_state fixture_final ! 0)) ''type'' ''changed'')
        ! tags (emitted caller_state fixture_final ! 0)
       = [''url'' \<mapsto> ''example:8053'', ''type'' \<mapsto> ''changed'', ''name'' \<mapsto> ''QUERY'']
   \<and> heap (map_set fixture_final (tags (emitted caller_state fixture_final ! 0)) ''type'' ''changed'')
        ! tags (emitted caller_state fixture_final ! 1)
       = [''url'' \<mapsto> ''example:8053'']
   \<and> heap (map_set fixture_final (tags (emitted caller_state fixture_final ! 0)) ''type'' ''changed'')
        ! length (heap caller_state)
       = [''url'' \<mapsto> ''example:8053'', ''type'' \<mapsto> ''sockstat'']
   \<and> heap (map_set fixture_final (tags (emitted caller_state fixture_final ! 0)) ''type'' ''changed'')
        ! 0
       = [''owner'' \<mapsto> ''caller'']"
proof -
  have 0: "(0::nat) < length (emitted caller_state fixture_final)"
    and 1: "(1::nat) < length (emitted caller_state fixture_final)"
    by (simp_all add: fixture_emitted) (simp_all add: fixture_final_def)
  have 2: "(0::nat) \<noteq> 1"
    by simp
  have t0: "tags (emitted caller_state fixture_final ! 0) = 2"
    and t1: "tags (emitted caller_state fixture_final ! 1) = 3"
    by (simp_all add: fixture_emitted) (simp_all add: fixture_final_def)
  have h: "heap fixture_final ! 2
        = [''url'' \<mapsto> ''example:8053'', ''type'' \<mapsto> ''opcode'', ''name'' \<mapsto> ''QUERY'']"
    "heap fixture_final ! 3 = [''url'' \<mapsto> ''example:8053'']"
    "heap fixture_final ! length (heap caller_state)
        = [''url'' \<mapsto> ''example:8053'', ''type'' \<mapsto> ''sockstat'']"
    "heap caller_state ! 0 = [''owner'' \<mapsto> ''caller'']"
    "(0::nat) < length (heap caller_state)"
    by (simp_all add: fixture_final_def caller_state_def)
  from tag_maps_are_fresh_copies [OF fixture_run 0 1 2, of "''type''" "''changed''"] 0 1 h
  show ?thesis
    unfolding t0 t1 by (simp add: fun_upd_twist)
qed


end
